theory Spec2Isabelle
  imports Main "HOL-Library.Word"
begin

unbundle bit_operations_syntax

section \<open>JavaScript values used by csrf-token.ts\<close>

text \<open>
  A JavaScript string is a sequence of 16-bit code units.  The parameters
  \<open>cookieValue?: string\<close> and \<open>bodyValue?: string\<close> of \<open>VerifyCSRFTokenParams\<close>, and an
  array element read by destructuring, are either a string or \<open>undefined\<close>.
\<close>

type_synonym byte = "8 word"
type_synonym code_unit = "16 word"
type_synonym jsstring = "code_unit list"

datatype jsval = Undefined | Str jsstring

datatype exn = TypeError

text \<open>A string literal of the source, as code units.\<close>

definition lit :: "string \<Rightarrow> jsstring" where
  "lit s = map of_char s"

definition pipe :: code_unit where
  "pipe = 0x7C"

text \<open>Truthiness, as \<open>!cookieValue\<close> and \<open>|| bodyValue\<close> test it: \<open>undefined\<close> and the
  empty string are falsy, every other string is truthy.\<close>

definition truthy :: "jsval \<Rightarrow> bool" where
  "truthy v = (case v of Undefined \<Rightarrow> False | Str s \<Rightarrow> s \<noteq> [])"

text \<open>The conversion a template literal applies to each substitution.\<close>

definition ToString :: "jsval \<Rightarrow> jsstring" where
  "ToString v = (case v of Undefined \<Rightarrow> lit ''undefined'' | Str s \<Rightarrow> s)"

definition template :: "jsval list \<Rightarrow> jsstring" where
  "template vs = concat (map ToString vs)"

text \<open>\<open>String.prototype.split\<close> with a separator of one code unit: the pieces between the
  occurrences of the separator, in order; a string without the separator is the only
  piece.  \<open>acc\<close> holds the current piece, reversed.\<close>

fun split_acc :: "code_unit \<Rightarrow> jsstring \<Rightarrow> jsstring \<Rightarrow> jsstring list" where
  "split_acc sep acc [] = [rev acc]"
| "split_acc sep acc (c # cs) =
     (if c = sep then rev acc # split_acc sep [] cs else split_acc sep (c # acc) cs)"

definition split_on :: "code_unit \<Rightarrow> jsstring \<Rightarrow> jsstring list" where
  "split_on sep s = split_acc sep [] s"

text \<open>Calling the method on \<open>undefined\<close> throws a \<open>TypeError\<close>.\<close>

definition split_method :: "jsval \<Rightarrow> code_unit \<Rightarrow> exn + jsstring list" where
  "split_method recv sep =
     (case recv of Undefined \<Rightarrow> Inl TypeError | Str s \<Rightarrow> Inr (split_on sep s))"

text \<open>Reading \<open>arr[i]\<close>, as array destructuring does: \<open>undefined\<close> past the end.\<close>

definition element :: "jsstring list \<Rightarrow> nat \<Rightarrow> jsval" where
  "element arr i = (if i < length arr then Str (arr ! i) else Undefined)"


section \<open>The crypto module: UTF-8, SHA-256, hex, random bytes\<close>

subsection \<open>UTF-8 encoding of a string passed to \<open>update\<close>\<close>

definition high_surrogate :: "code_unit \<Rightarrow> bool" where
  "high_surrogate u = (0xD800 \<le> u \<and> u \<le> 0xDBFF)"

definition low_surrogate :: "code_unit \<Rightarrow> bool" where
  "low_surrogate u = (0xDC00 \<le> u \<and> u \<le> 0xDFFF)"

text \<open>The bytes of one code point (at most 21 bits).\<close>

definition utf8_code_point :: "32 word \<Rightarrow> byte list" where
  "utf8_code_point cp =
     (if cp < 0x80 then [ucast cp]
      else if cp < 0x800 then
        [0xC0 OR ucast (drop_bit 6 cp), 0x80 OR ucast (cp AND 0x3F)]
      else if cp < 0x10000 then
        [0xE0 OR ucast (drop_bit 12 cp), 0x80 OR ucast (drop_bit 6 cp AND 0x3F),
         0x80 OR ucast (cp AND 0x3F)]
      else
        [0xF0 OR ucast (drop_bit 18 cp), 0x80 OR ucast (drop_bit 12 cp AND 0x3F),
         0x80 OR ucast (drop_bit 6 cp AND 0x3F), 0x80 OR ucast (cp AND 0x3F)])"

text \<open>A surrogate pair is one code point; a lone surrogate is encoded as U+FFFD.\<close>

definition utf8_unit :: "code_unit \<Rightarrow> byte list" where
  "utf8_unit u =
     (if high_surrogate u \<or> low_surrogate u then utf8_code_point 0xFFFD
      else utf8_code_point (ucast u))"

fun utf8_encode :: "jsstring \<Rightarrow> byte list" where
  "utf8_encode [] = []"
| "utf8_encode [u] = utf8_unit u"
| "utf8_encode (u # v # rest) =
     (if high_surrogate u \<and> low_surrogate v then
        utf8_code_point (0x10000 + push_bit 10 (ucast u - 0xD800) + (ucast v - 0xDC00))
          @ utf8_encode rest
      else utf8_unit u @ utf8_encode (v # rest))"

subsection \<open>SHA-256 (FIPS 180-4) on byte strings\<close>

type_synonym u32 = "32 word"

definition rotr :: "nat \<Rightarrow> u32 \<Rightarrow> u32" where
  "rotr n x = drop_bit n x OR push_bit (32 - n) x"

definition Ch :: "u32 \<Rightarrow> u32 \<Rightarrow> u32 \<Rightarrow> u32" where
  "Ch x y z = (x AND y) XOR (NOT x AND z)"

definition Maj :: "u32 \<Rightarrow> u32 \<Rightarrow> u32 \<Rightarrow> u32" where
  "Maj x y z = (x AND y) XOR (x AND z) XOR (y AND z)"

definition bsig0 :: "u32 \<Rightarrow> u32" where
  "bsig0 x = rotr 2 x XOR rotr 13 x XOR rotr 22 x"

definition bsig1 :: "u32 \<Rightarrow> u32" where
  "bsig1 x = rotr 6 x XOR rotr 11 x XOR rotr 25 x"

definition ssig0 :: "u32 \<Rightarrow> u32" where
  "ssig0 x = rotr 7 x XOR rotr 18 x XOR drop_bit 3 x"

definition ssig1 :: "u32 \<Rightarrow> u32" where
  "ssig1 x = rotr 17 x XOR rotr 19 x XOR drop_bit 10 x"

definition K256 :: "u32 list" where
  "K256 =
    [0x428A2F98, 0x71374491, 0xB5C0FBCF, 0xE9B5DBA5, 0x3956C25B, 0x59F111F1, 0x923F82A4, 0xAB1C5ED5,
     0xD807AA98, 0x12835B01, 0x243185BE, 0x550C7DC3, 0x72BE5D74, 0x80DEB1FE, 0x9BDC06A7, 0xC19BF174,
     0xE49B69C1, 0xEFBE4786, 0x0FC19DC6, 0x240CA1CC, 0x2DE92C6F, 0x4A7484AA, 0x5CB0A9DC, 0x76F988DA,
     0x983E5152, 0xA831C66D, 0xB00327C8, 0xBF597FC7, 0xC6E00BF3, 0xD5A79147, 0x06CA6351, 0x14292967,
     0x27B70A85, 0x2E1B2138, 0x4D2C6DFC, 0x53380D13, 0x650A7354, 0x766A0ABB, 0x81C2C92E, 0x92722C85,
     0xA2BFE8A1, 0xA81A664B, 0xC24B8B70, 0xC76C51A3, 0xD192E819, 0xD6990624, 0xF40E3585, 0x106AA070,
     0x19A4C116, 0x1E376C08, 0x2748774C, 0x34B0BCB5, 0x391C0CB3, 0x4ED8AA4A, 0x5B9CCA4F, 0x682E6FF3,
     0x748F82EE, 0x78A5636F, 0x84C87814, 0x8CC70208, 0x90BEFFFA, 0xA4506CEB, 0xBEF9A3F7, 0xC67178F2]"

type_synonym sha_state = "u32 \<times> u32 \<times> u32 \<times> u32 \<times> u32 \<times> u32 \<times> u32 \<times> u32"

definition H256 :: sha_state where
  "H256 = (0x6A09E667, 0xBB67AE85, 0x3C6EF372, 0xA54FF53A,
           0x510E527F, 0x9B05688C, 0x1F83D9AB, 0x5BE0CD19)"

text \<open>The message schedule: \<open>schedule 48\<close> extends the 16 words of a block to 64.\<close>

fun schedule :: "nat \<Rightarrow> u32 list \<Rightarrow> u32 list" where
  "schedule 0 w = w"
| "schedule (Suc n) w =
     schedule n (w @ [ssig1 (w ! (length w - 2)) + w ! (length w - 7)
                      + ssig0 (w ! (length w - 15)) + w ! (length w - 16)])"

fun round256 :: "u32 \<times> u32 \<Rightarrow> sha_state \<Rightarrow> sha_state" where
  "round256 (k, w) (a, b, c, d, e, f, g, h) =
     (let t1 = h + bsig1 e + Ch e f g + k + w;
          t2 = bsig0 a + Maj a b c
      in (t1 + t2, a, b, c, d + t1, e, f, g))"

fun add_state :: "sha_state \<Rightarrow> sha_state \<Rightarrow> sha_state" where
  "add_state (a, b, c, d, e, f, g, h) (a', b', c', d', e', f', g', h') =
     (a + a', b + b', c + c', d + d', e + e', f + f', g + g', h + h')"

definition compress :: "u32 list \<Rightarrow> sha_state \<Rightarrow> sha_state" where
  "compress block st = add_state st (fold round256 (zip K256 (schedule 48 block)) st)"

fun be32_words :: "byte list \<Rightarrow> u32 list" where
  "be32_words (b0 # b1 # b2 # b3 # rest) =
     (push_bit 24 (ucast b0) OR push_bit 16 (ucast b1) OR push_bit 8 (ucast b2) OR ucast b3)
       # be32_words rest"
| "be32_words _ = []"

definition be32_bytes :: "u32 \<Rightarrow> byte list" where
  "be32_bytes w = [ucast (drop_bit 24 w), ucast (drop_bit 16 w), ucast (drop_bit 8 w), ucast w]"

definition be64_bytes :: "64 word \<Rightarrow> byte list" where
  "be64_bytes w = map (\<lambda>i. ucast (drop_bit (8 * i) w)) [7, 6, 5, 4, 3, 2, 1, 0]"

text \<open>Padding: the byte 0x80, zero bytes up to 56 modulo 64, the bit length in 64 bits.\<close>

definition pad :: "byte list \<Rightarrow> byte list" where
  "pad m = m @ [0x80] @ replicate ((119 - length m mod 64) mod 64) 0
             @ be64_bytes (of_nat (8 * length m))"

function blocks :: "byte list \<Rightarrow> byte list list" where
  "blocks bs = (if bs = [] then [] else take 64 bs # blocks (drop 64 bs))"
  by pat_completeness auto
termination
  by (relation "measure length") auto

declare blocks.simps [simp del]

fun state_bytes :: "sha_state \<Rightarrow> byte list" where
  "state_bytes (a, b, c, d, e, f, g, h) = concat (map be32_bytes [a, b, c, d, e, f, g, h])"

definition sha256 :: "byte list \<Rightarrow> byte list" where
  "sha256 m = state_bytes (fold (\<lambda>blk. compress (be32_words blk)) (blocks (pad m)) H256)"

subsection \<open>\<open>Buffer.toString("hex")\<close>\<close>

definition hexdigits :: jsstring where
  "hexdigits = lit ''0123456789abcdef''"

definition hex_byte :: "byte \<Rightarrow> jsstring" where
  "hex_byte b = [hexdigits ! unat (drop_bit 4 b), hexdigits ! unat (b AND 0x0F)]"

definition toString_hex :: "byte list \<Rightarrow> jsstring" where
  "toString_hex bs = concat (map hex_byte bs)"

text \<open>A string of lowercase hexadecimal digits.\<close>

definition is_hex :: "jsstring \<Rightarrow> bool" where
  "is_hex s = list_all (\<lambda>c. c \<in> set hexdigits) s"

subsection \<open>The \<open>Hash\<close> object\<close>

text \<open>\<open>createHash\<close> makes an object that accumulates the bytes given to \<open>update\<close>;
  \<open>digest("hex")\<close> hashes them and renders the result in hex.\<close>

datatype algorithm = SHA256

record hash_object =
  algorithm :: algorithm
  pending :: "byte list"

definition createHash :: "algorithm \<Rightarrow> hash_object" where
  "createHash alg = \<lparr>algorithm = alg, pending = []\<rparr>"

definition update :: "jsstring \<Rightarrow> hash_object \<Rightarrow> hash_object" where
  "update data h = h\<lparr>pending := pending h @ utf8_encode data\<rparr>"

definition digest_hex :: "hash_object \<Rightarrow> jsstring" where
  "digest_hex h = (case algorithm h of SHA256 \<Rightarrow> toString_hex (sha256 (pending h)))"

subsection \<open>\<open>randomBytes\<close>\<close>

text \<open>The secure random source is an unending supply of bytes; \<open>randomBytes n\<close> takes the
  next \<open>n\<close> of them and leaves the rest.  A source that is unavailable is an error of the
  environment and is not part of the model.\<close>

type_synonym entropy = "nat \<Rightarrow> byte"

definition randomBytes :: "nat \<Rightarrow> entropy \<Rightarrow> byte list \<times> entropy" where
  "randomBytes n src = (map src [0..<n], \<lambda>i. src (i + n))"


section \<open>csrf-token.ts\<close>

text \<open>\<open>createHashWithSecret(secret, csrfToken)\<close>: SHA-256 over the template literal
  \<open>`${csrfToken}${secret}`\<close>, in hex.\<close>

definition createHashWithSecret :: "jsval \<Rightarrow> jsval \<Rightarrow> jsstring" where
  "createHashWithSecret secret csrfToken =
     digest_hex (update (template [csrfToken, secret]) (createHash SHA256))"

text \<open>\<open>createCSRFToken(secret)\<close> returns the object \<open>{ cookie, csrfToken }\<close>; the model also
  returns the random source it leaves behind.  The fields keep the names \<open>cookie\<close> and
  \<open>csrfToken\<close>, so the local constants of the same names are written \<open>cookieValue\<close> and
  \<open>token\<close> here and in \<open>verifyCSRFToken\<close>.\<close>

record csrf_pair =
  cookie :: jsstring
  csrfToken :: jsstring

definition createCSRFToken :: "jsstring \<Rightarrow> entropy \<Rightarrow> csrf_pair \<times> entropy" where
  "createCSRFToken secret src =
     (let (buf, src') = randomBytes 32 src;
          token = toString_hex buf;
          csrfTokenHash = createHashWithSecret (Str secret) (Str token);
          cookieValue = template [Str token, Str (lit ''|''), Str csrfTokenHash]
      in (\<lparr>cookie = cookieValue, csrfToken = token\<rparr>, src'))"

text \<open>Line 56, \<open>const [csrfToken, csrfTokenHash] = cookieValue.split("|")\<close>: the first two
  elements of the array of pieces.\<close>

definition split_cookie :: "jsval \<Rightarrow> exn + jsval \<times> jsval" where
  "split_cookie cookieValue =
     (case split_method cookieValue pipe of
        Inl e \<Rightarrow> Inl e
      | Inr parts \<Rightarrow> Inr (element parts 0, element parts 1))"

text \<open>\<open>verifyCSRFToken({ secret, cookieValue, bodyValue })\<close>.  \<open>===\<close> on values that are a
  string or \<open>undefined\<close> is equality of \<open>jsval\<close>.\<close>

definition verifyCSRFToken :: "jsstring \<Rightarrow> jsval \<Rightarrow> jsval \<Rightarrow> exn + bool" where
  "verifyCSRFToken secret cookieValue bodyValue =
     (if \<not> truthy cookieValue \<or> truthy bodyValue then Inr False
      else
        (case split_cookie cookieValue of
           Inl e \<Rightarrow> Inl e
         | Inr (token, csrfTokenHash) \<Rightarrow>
             (let expectedCsrfTokenHash = createHashWithSecret (Str secret) token
              in Inr (token = bodyValue \<and> csrfTokenHash = Str expectedCsrfTokenHash))))"

text \<open>The parse the specification describes: the text before the first pipe, and all the
  text after it.\<close>

definition spec_embedded_token :: "jsstring \<Rightarrow> jsstring" where
  "spec_embedded_token c = takeWhile (\<lambda>u. u \<noteq> pipe) c"

definition spec_embedded_digest :: "jsstring \<Rightarrow> jsstring" where
  "spec_embedded_digest c = drop 1 (dropWhile (\<lambda>u. u \<noteq> pipe) c)"

text \<open>A worked example: the secret \<open>s3cr3t\<close> and a random source that yields zero bytes.\<close>

definition example_secret :: jsstring where
  "example_secret = lit ''s3cr3t''"

definition example_entropy :: entropy where
  "example_entropy = (\<lambda>i. 0)"

definition example_token :: jsstring where
  "example_token = lit ''0000000000000000000000000000000000000000000000000000000000000000''"

definition example_digest :: jsstring where
  "example_digest = lit ''b39feb399c607293b0ab8f651b29d01ee62b34140b019990dd68f6d599f4c826''"


section \<open>Facts about the library functions\<close>

lemma lit_pipe: "lit ''|'' = [pipe]"
  by (simp add: lit_def pipe_def)

lemma pipe_not_hexdigit: "pipe \<notin> set hexdigits"
  by (simp add: lit_def pipe_def hexdigits_def)

lemma length_hexdigits: "length hexdigits = 16"
  by (simp add: lit_def hexdigits_def)

lemma length_state_bytes: "length (state_bytes st) = 32"
  by (cases st rule: state_bytes.cases) (simp add: be32_bytes_def)

lemma length_sha256: "length (sha256 m) = 32"
  by (simp add: sha256_def length_state_bytes)

lemma high_nibble: "unat (drop_bit 4 (b::byte)) < 16"
proof -
  have "unat b < 2 ^ 8" using unsigned_less [of b] by simp
  then have "unat b div 2 ^ 4 < 16" by simp
  moreover have "unat (drop_bit 4 b) = unat b div 2 ^ 4"
    by (simp add: drop_bit_eq_div unat_div)
  ultimately show ?thesis by simp
qed

lemma low_nibble: "unat ((b::byte) AND 0x0F) < 16"
proof -
  have "b AND 0x0F \<le> 0x0F" by (rule word_and_le1)
  then have "unat (b AND 0x0F) \<le> unat (0x0F :: byte)" by (simp add: word_le_nat_alt)
  then show ?thesis by simp
qed

lemma hex_byte_digits: "set (hex_byte b) \<subseteq> set hexdigits"
  using high_nibble [of b] low_nibble [of b]
  by (simp add: hex_byte_def length_hexdigits)

lemma length_hex_byte: "length (hex_byte b) = 2"
  by (simp add: hex_byte_def)

lemma length_toString_hex: "length (toString_hex bs) = 2 * length bs"
  by (induction bs) (simp_all add: toString_hex_def length_hex_byte)

lemma set_toString_hex: "set (toString_hex bs) \<subseteq> set hexdigits"
  using hex_byte_digits by (auto simp: toString_hex_def)

lemma is_hex_toString_hex: "is_hex (toString_hex bs)"
  using set_toString_hex [of bs] by (auto simp: is_hex_def list_all_iff)

lemma is_hex_no_pipe: "is_hex s \<Longrightarrow> pipe \<notin> set s"
  using pipe_not_hexdigit by (auto simp: is_hex_def list_all_iff)

lemma fst_randomBytes: "fst (randomBytes n src) = map src [0..<n]"
  by (simp add: randomBytes_def)

lemma snd_randomBytes: "snd (randomBytes n src) = (\<lambda>i. src (i + n))"
  by (simp add: randomBytes_def)

lemma length_randomBytes: "length (fst (randomBytes n src)) = n"
  by (simp add: randomBytes_def)

subsection \<open>Splitting\<close>

lemma split_acc_no_sep: "sep \<notin> set s \<Longrightarrow> split_acc sep acc s = [rev acc @ s]"
  by (induction s arbitrary: acc) auto

lemma split_acc_first:
  "sep \<notin> set a \<Longrightarrow> split_acc sep acc (a @ sep # b) = (rev acc @ a) # split_acc sep [] b"
  by (induction a arbitrary: acc) auto

lemma split_acc_nonempty: "split_acc sep acc s \<noteq> []"
  by (induction s arbitrary: acc) auto

lemma split_acc_head:
  "\<exists>rest. split_acc sep acc s = (rev acc @ takeWhile (\<lambda>u. u \<noteq> sep) s) # rest"
proof (induction s arbitrary: acc)
  case Nil
  show ?case by simp
next
  case (Cons a s)
  show ?case
  proof (cases "a = sep")
    case True
    then show ?thesis by simp
  next
    case False
    obtain rest where
      "split_acc sep (a # acc) s = (rev (a # acc) @ takeWhile (\<lambda>u. u \<noteq> sep) s) # rest"
      using Cons.IH by blast
    then show ?thesis using False by simp
  qed
qed

lemma split_on_no_sep: "sep \<notin> set s \<Longrightarrow> split_on sep s = [s]"
  by (simp add: split_on_def split_acc_no_sep)

lemma split_on_first: "sep \<notin> set a \<Longrightarrow> split_on sep (a @ sep # b) = a # split_on sep b"
  by (simp add: split_on_def split_acc_first)

lemma split_on_nonempty: "split_on sep s \<noteq> []"
  by (simp add: split_on_def split_acc_nonempty)

lemma split_on_head: "\<exists>rest. split_on sep s = takeWhile (\<lambda>u. u \<noteq> sep) s # rest"
  using split_acc_head [of sep "[]" s] by (simp add: split_on_def)

lemma at_first_pipe:
  "pipe \<in> set c \<Longrightarrow> c = spec_embedded_token c @ pipe # spec_embedded_digest c"
proof -
  assume "pipe \<in> set c"
  then have "dropWhile (\<lambda>u. u \<noteq> pipe) c \<noteq> []" by simp
  then obtain x xs where d: "dropWhile (\<lambda>u. u \<noteq> pipe) c = x # xs"
    by (cases "dropWhile (\<lambda>u. u \<noteq> pipe) c") auto
  then have "x = pipe" using hd_dropWhile [of "\<lambda>u. u \<noteq> pipe" c] by simp
  then have "takeWhile (\<lambda>u. u \<noteq> pipe) c @ pipe # xs = c"
    using takeWhile_dropWhile_id [of "\<lambda>u. u \<noteq> pipe" c] d by simp
  then show ?thesis by (simp add: spec_embedded_token_def spec_embedded_digest_def d)
qed


section \<open>Facts about the keyed digest and issuance\<close>

lemma digest_unfold:
  "createHashWithSecret secret token
     = toString_hex (sha256 (utf8_encode (ToString token @ ToString secret)))"
  by (simp add: createHashWithSecret_def digest_hex_def update_def createHash_def template_def)

lemma is_hex_digest: "is_hex (createHashWithSecret secret token)"
  by (simp add: digest_unfold is_hex_toString_hex)

lemma length_digest: "length (createHashWithSecret secret token) = 64"
  by (simp add: digest_unfold length_toString_hex length_sha256)

text \<open>The FIPS 180-4 test vector for the message \<open>abc\<close>, reached with the token \<open>ab\<close> and
  the secret \<open>c\<close>.\<close>

lemma digest_test_vector:
  "createHashWithSecret (Str (lit ''c'')) (Str (lit ''ab''))
     = lit ''ba7816bf8f01cfea414140de5dae2223b00361a396177a9cb410ff61f20015ad''"
  by code_simp

text \<open>The order of the concatenation matters: with token and secret exchanged the bytes
  hashed are \<open>cab\<close>, and the digest differs.\<close>

lemma digest_exchanged:
  "createHashWithSecret (Str (lit ''ab'')) (Str (lit ''c''))
     = lit ''6548d955790a22925c1e23508ec4e2bffb8e45d80261b4b2c1f9d8c9b0d152b6''"
  by code_simp

lemma digest_order_matters:
  "createHashWithSecret (Str (lit ''c'')) (Str (lit ''ab''))
     \<noteq> createHashWithSecret (Str (lit ''ab'')) (Str (lit ''c''))"
  unfolding digest_test_vector digest_exchanged by (simp add: lit_def)

text \<open>Code units beyond ASCII: a two-byte and a three-byte character, a surrogate pair and
  a lone surrogate.\<close>

lemma utf8_example:
  "utf8_encode [0xE9, 0x20AC, 0xD83D, 0xDE00, 0xDC00]
     = [0xC3, 0xA9, 0xE2, 0x82, 0xAC, 0xF0, 0x9F, 0x98, 0x80, 0xEF, 0xBF, 0xBD]"
  by code_simp

lemma issued_pair:
  assumes "createCSRFToken secret src = (p, src')"
  shows "csrfToken p = toString_hex (fst (randomBytes 32 src))"
    and "cookie p = csrfToken p @ pipe # createHashWithSecret (Str secret) (Str (csrfToken p))"
proof -
  have "p = fst (createCSRFToken secret src)" by (simp add: assms)
  then have p:
    "p = \<lparr>cookie = template [Str (toString_hex (fst (randomBytes 32 src))), Str (lit ''|''),
             Str (createHashWithSecret (Str secret)
                    (Str (toString_hex (fst (randomBytes 32 src)))))],
          csrfToken = toString_hex (fst (randomBytes 32 src))\<rparr>"
    by (simp add: createCSRFToken_def Let_def split_def)
  show "csrfToken p = toString_hex (fst (randomBytes 32 src))"
    by (simp add: p)
  show "cookie p = csrfToken p @ pipe # createHashWithSecret (Str secret) (Str (csrfToken p))"
    by (simp add: p template_def ToString_def lit_pipe)
qed

lemma issued_token_hex:
  assumes "createCSRFToken secret src = (p, src')"
  shows "is_hex (csrfToken p)" and "length (csrfToken p) = 64"
  using issued_pair(1) [OF assms]
  by (simp_all add: is_hex_toString_hex length_toString_hex length_randomBytes)

lemma split_issued:
  assumes "createCSRFToken secret src = (p, src')"
  shows "split_on pipe (cookie p)
           = [csrfToken p, createHashWithSecret (Str secret) (Str (csrfToken p))]"
proof -
  have "pipe \<notin> set (csrfToken p)"
    using issued_token_hex(1) [OF assms] by (rule is_hex_no_pipe)
  moreover have "pipe \<notin> set (createHashWithSecret (Str secret) (Str (csrfToken p)))"
    using is_hex_digest by (rule is_hex_no_pipe)
  ultimately show ?thesis
    by (simp add: issued_pair(2) [OF assms] split_on_first split_on_no_sep)
qed

text \<open>The worked example, evaluated: the token is 64 zeros and the digest is the SHA-256
  of the 64 zeros followed by \<open>s3cr3t\<close>.\<close>

lemma issue_example_fst:
  "fst (createCSRFToken example_secret example_entropy)
     = \<lparr>cookie = example_token @ lit ''|'' @ example_digest, csrfToken = example_token\<rparr>"
  by code_simp

lemma issue_example:
  "createCSRFToken example_secret example_entropy
     = (\<lparr>cookie = example_token @ lit ''|'' @ example_digest, csrfToken = example_token\<rparr>,
        example_entropy)"
proof (rule prod_eqI)
  show "fst (createCSRFToken example_secret example_entropy)
          = fst (\<lparr>cookie = example_token @ lit ''|'' @ example_digest,
                   csrfToken = example_token\<rparr>, example_entropy)"
    by (simp add: issue_example_fst)
  show "snd (createCSRFToken example_secret example_entropy)
          = snd (\<lparr>cookie = example_token @ lit ''|'' @ example_digest,
                   csrfToken = example_token\<rparr>, example_entropy)"
    by (simp add: createCSRFToken_def Let_def split_def snd_randomBytes example_entropy_def)
qed

lemma example_token_nonempty: "example_token \<noteq> []"
  by (simp add: example_token_def lit_def)


section \<open>Facts about verification\<close>

lemma verify_falsy_cookie:
  "\<not> truthy cookieValue \<Longrightarrow> verifyCSRFToken secret cookieValue bodyValue = Inr False"
  by (simp add: verifyCSRFToken_def)

lemma verify_truthy_body:
  "truthy bodyValue \<Longrightarrow> verifyCSRFToken secret cookieValue bodyValue = Inr False"
  by (simp add: verifyCSRFToken_def)

lemma verify_parsed:
  assumes "c \<noteq> []" and "\<not> truthy bodyValue"
  shows "verifyCSRFToken secret (Str c) bodyValue =
           Inr (element (split_on pipe c) 0 = bodyValue
                \<and> element (split_on pipe c) 1
                    = Str (createHashWithSecret (Str secret) (element (split_on pipe c) 0)))"
  using assms by (simp add: verifyCSRFToken_def truthy_def split_cookie_def split_method_def)

text \<open>The \<open>TypeError\<close> of calling \<open>split\<close> on \<open>undefined\<close> is never reached: the guard returns
  first.\<close>

lemma verify_never_throws: "\<exists>b. verifyCSRFToken secret cookieValue bodyValue = Inr b"
  by (cases cookieValue)
     (auto simp: verifyCSRFToken_def truthy_def split_cookie_def split_method_def)

text \<open>What the code accepts: a non-empty cookie, the submitted value present but empty, an
  empty first piece, and a second piece equal to the digest of the empty token.\<close>

lemma verify_true_iff:
  "verifyCSRFToken secret cookieValue bodyValue = Inr True \<longleftrightarrow>
     (\<exists>c. cookieValue = Str c \<and> c \<noteq> [] \<and> bodyValue = Str []
          \<and> element (split_on pipe c) 0 = Str []
          \<and> element (split_on pipe c) 1 = Str (createHashWithSecret (Str secret) (Str [])))"
proof (cases "truthy cookieValue \<and> \<not> truthy bodyValue")
  case False
  then have "verifyCSRFToken secret cookieValue bodyValue = Inr False"
    using verify_falsy_cookie verify_truthy_body by blast
  moreover have "\<not> (\<exists>c. cookieValue = Str c \<and> c \<noteq> [] \<and> bodyValue = Str [])"
    using False by (auto simp: truthy_def)
  ultimately show ?thesis by auto
next
  case True
  then obtain c where c: "cookieValue = Str c" and ne: "c \<noteq> []"
    by (cases cookieValue) (auto simp: truthy_def)
  from True have b: "\<not> truthy bodyValue" by simp
  obtain x rest where sp: "split_on pipe c = x # rest"
    using split_on_nonempty [of pipe c] by (cases "split_on pipe c") auto
  have e0: "element (split_on pipe c) 0 = Str x" by (simp add: sp element_def)
  show ?thesis
  proof (cases bodyValue)
    case Undefined
    then show ?thesis using ne b by (simp add: c verify_parsed e0)
  next
    case (Str s)
    with b have "s = []" by (simp add: truthy_def)
    then show ?thesis using ne b Str by (auto simp: c verify_parsed e0)
  qed
qed


section \<open>The claims\<close>

text \<open>
  Claim C1 (issue-then-verify round trip).  The claim asks that verification with the
  secret, the issued cookie value and the issued token as the submitted value returns
  true.  The code returns false there: the issued token is 64 characters long, hence
  truthy, and the guard \<open>!cookieValue || bodyValue\<close> returns false for every truthy
  submitted value.  The theorem states what the code does at every issued pair.
\<close>

theorem issued_pair_rejected:
  "createCSRFToken secret src = (p, src') \<Longrightarrow>
     verifyCSRFToken secret (Str (cookie p)) (Str (csrfToken p)) = Inr False"
proof -
  assume a: "createCSRFToken secret src = (p, src')"
  have "length (csrfToken p) = 64" by (rule issued_token_hex(2) [OF a])
  then have "csrfToken p \<noteq> []" by auto
  then show ?thesis by (simp add: verify_truthy_body truthy_def)
qed

theorem issued_pair_rejected_witness:
  "verifyCSRFToken example_secret (Str (example_token @ lit ''|'' @ example_digest))
     (Str example_token) = Inr False"
  using issued_pair_rejected [OF issue_example] by simp

text \<open>
  Claim C2.  For every secret, every cookie value (present or absent) and every non-empty
  submitted value, verification returns false.
\<close>

theorem submitted_value_rejected:
  "bodyValue \<noteq> [] \<Longrightarrow> verifyCSRFToken secret cookieValue (Str bodyValue) = Inr False"
  by (simp add: verify_truthy_body truthy_def)

theorem submitted_value_rejected_witness:
  "example_token \<noteq> [] \<and>
   verifyCSRFToken example_secret (Str (example_token @ lit ''|'' @ example_digest))
     (Str example_token) = Inr False"
  using example_token_nonempty submitted_value_rejected [OF example_token_nonempty] by simp

text \<open>
  Claim C3 (the verdict).  The claim asks for true exactly when cookie and submitted value
  are present, the embedded token equals the submitted value and the embedded digest equals
  the recomputed one.  At every issued pair all of these conditions hold (the cookie splits
  into the issued token and the digest recomputed from the secret and that token), and the
  code returns false.
\<close>

theorem pass_conditions_hold_yet_rejected:
  "createCSRFToken secret src = (p, src') \<Longrightarrow>
     truthy (Str (cookie p)) \<and> truthy (Str (csrfToken p))
     \<and> split_cookie (Str (cookie p))
         = Inr (Str (csrfToken p), Str (createHashWithSecret (Str secret) (Str (csrfToken p))))
     \<and> verifyCSRFToken secret (Str (cookie p)) (Str (csrfToken p)) = Inr False"
proof -
  assume a: "createCSRFToken secret src = (p, src')"
  have "length (csrfToken p) = 64" by (rule issued_token_hex(2) [OF a])
  then have ne: "csrfToken p \<noteq> []" by auto
  then have "verifyCSRFToken secret (Str (cookie p)) (Str (csrfToken p)) = Inr False"
    by (simp add: verify_truthy_body truthy_def)
  moreover have "cookie p \<noteq> []" by (simp add: issued_pair(2) [OF a])
  ultimately show ?thesis using ne
    by (simp add: split_cookie_def split_method_def split_issued [OF a] element_def truthy_def)
qed

theorem pass_conditions_hold_yet_rejected_witness:
  "truthy (Str (example_token @ lit ''|'' @ example_digest)) \<and> truthy (Str example_token)
   \<and> split_cookie (Str (example_token @ lit ''|'' @ example_digest))
       = Inr (Str example_token, Str (createHashWithSecret (Str example_secret) (Str example_token)))
   \<and> verifyCSRFToken example_secret (Str (example_token @ lit ''|'' @ example_digest))
       (Str example_token) = Inr False"
  using pass_conditions_hold_yet_rejected [OF issue_example] by simp

text \<open>
  Claim C4 (keyed digest).  For every secret and token, the keyed digest is the hex
  rendering of the SHA-256 hash of the UTF-8 bytes of the token immediately followed by
  the secret; it has 64 characters, all of them lowercase hexadecimal digits.  Being a
  function of the pair, the digest is the same whenever secret and token are the same.
\<close>

theorem keyed_digest_sha256_hex:
  "createHashWithSecret (Str secret) (Str token)
     = toString_hex (sha256 (utf8_encode (token @ secret)))
   \<and> length (createHashWithSecret (Str secret) (Str token)) = 64
   \<and> is_hex (createHashWithSecret (Str secret) (Str token))"
  by (simp add: digest_unfold ToString_def length_toString_hex length_sha256 is_hex_toString_hex)

text \<open>
  Claim C5 (issuance).  For every secret, the issued token is the hex encoding of the 32
  bytes drawn from the random source, 64 hexadecimal characters long, and the cookie value
  is the token, a single pipe, and the keyed digest of the secret and the token.
\<close>

theorem issuance_token_and_cookie:
  "createCSRFToken secret src = (p, src') \<Longrightarrow>
     csrfToken p = toString_hex (fst (randomBytes 32 src))
     \<and> length (fst (randomBytes 32 src)) = 32
     \<and> length (csrfToken p) = 64
     \<and> is_hex (csrfToken p)
     \<and> cookie p = csrfToken p @ lit ''|'' @ createHashWithSecret (Str secret) (Str (csrfToken p))"
proof -
  assume a: "createCSRFToken secret src = (p, src')"
  show ?thesis using issued_pair [OF a] issued_token_hex [OF a]
    by (simp add: length_randomBytes lit_pipe)
qed

theorem issuance_token_and_cookie_witness:
  "example_token = toString_hex (fst (randomBytes 32 example_entropy))
   \<and> length (fst (randomBytes 32 example_entropy)) = 32
   \<and> length example_token = 64
   \<and> is_hex example_token
   \<and> example_token @ lit ''|'' @ example_digest
       = example_token @ lit ''|'' @ createHashWithSecret (Str example_secret) (Str example_token)"
  using issuance_token_and_cookie [OF issue_example] by simp

text \<open>
  Claim C6 (malformed cookie).  For every secret and every submitted value (present or
  absent), verification with an absent cookie value, an empty cookie value, or a cookie
  value without a pipe returns the boolean false; it does not throw.
\<close>

theorem malformed_cookie_false:
  "cookieValue = Undefined \<or> cookieValue = Str []
     \<or> (\<exists>c. cookieValue = Str c \<and> pipe \<notin> set c) \<Longrightarrow>
   verifyCSRFToken secret cookieValue bodyValue = Inr False"
proof -
  assume h: "cookieValue = Undefined \<or> cookieValue = Str []
               \<or> (\<exists>c. cookieValue = Str c \<and> pipe \<notin> set c)"
  show ?thesis
  proof (cases "truthy cookieValue \<and> \<not> truthy bodyValue")
    case False
    then show ?thesis using verify_falsy_cookie verify_truthy_body by blast
  next
    case True
    then have t: "truthy cookieValue" and b: "\<not> truthy bodyValue" by simp_all
    from t have "cookieValue \<noteq> Undefined" and "cookieValue \<noteq> Str []"
      by (auto simp: truthy_def)
    with h obtain c where c: "cookieValue = Str c" and np: "pipe \<notin> set c" by blast
    from t c have ne: "c \<noteq> []" by (simp add: truthy_def)
    have "split_on pipe c = [c]" using np by (rule split_on_no_sep)
    then show ?thesis unfolding c using ne b
      by (simp add: verify_parsed element_def)
  qed
qed

theorem malformed_cookie_false_witness:
  "verifyCSRFToken example_secret Undefined (Str example_token) = Inr False
   \<and> verifyCSRFToken example_secret (Str []) (Str example_token) = Inr False
   \<and> verifyCSRFToken example_secret (Str (lit ''no-pipe-here'')) Undefined = Inr False
   \<and> verifyCSRFToken example_secret (Str (lit ''no-pipe-here'')) (Str []) = Inr False"
proof -
  have np: "pipe \<notin> set (lit ''no-pipe-here'')" by (simp add: lit_def pipe_def)
  have 1: "verifyCSRFToken example_secret Undefined (Str example_token) = Inr False"
    by (rule malformed_cookie_false) simp
  have 2: "verifyCSRFToken example_secret (Str []) (Str example_token) = Inr False"
    by (rule malformed_cookie_false) simp
  have 3: "verifyCSRFToken example_secret (Str (lit ''no-pipe-here'')) Undefined = Inr False"
    by (rule malformed_cookie_false) (simp add: np)
  have 4: "verifyCSRFToken example_secret (Str (lit ''no-pipe-here'')) (Str []) = Inr False"
    by (rule malformed_cookie_false) (simp add: np)
  from 1 2 3 4 show ?thesis by simp
qed

text \<open>
  Claim C7 (parsing).  The claim says the embedded digest is everything after the first
  pipe, even when more pipes follow.  The code splits on every pipe and keeps the first two
  pieces: for the cookie value \<open>a|b|c\<close> the embedded digest is \<open>b\<close>, not \<open>b|c\<close>.
\<close>

theorem digest_not_all_after_first_pipe:
  "split_cookie (Str (lit ''a|b|c'')) = Inr (Str (lit ''a''), Str (lit ''b''))
   \<and> spec_embedded_digest (lit ''a|b|c'') = lit ''b|c''
   \<and> split_cookie (Str (lit ''a|b|c''))
        \<noteq> Inr (Str (spec_embedded_token (lit ''a|b|c'')),
               Str (spec_embedded_digest (lit ''a|b|c'')))"
  by (simp add: split_cookie_def split_method_def split_on_def element_def lit_def pipe_def
      spec_embedded_token_def spec_embedded_digest_def)

text \<open>
  Claim C7, amended.  For every cookie value containing at least one pipe, the embedded
  token is everything before the first pipe, and the embedded digest is the text after the
  first pipe up to the next pipe, or up to the end when no pipe follows.
\<close>

theorem split_cookie_first_two_pieces:
  "pipe \<in> set c \<Longrightarrow>
     split_cookie (Str c)
       = Inr (Str (spec_embedded_token c),
              Str (takeWhile (\<lambda>u. u \<noteq> pipe) (spec_embedded_digest c)))"
proof -
  assume a: "pipe \<in> set c"
  have "pipe \<notin> set (spec_embedded_token c)"
    by (auto simp: spec_embedded_token_def dest: set_takeWhileD)
  then have "split_on pipe (spec_embedded_token c @ pipe # spec_embedded_digest c)
               = spec_embedded_token c # split_on pipe (spec_embedded_digest c)"
    by (rule split_on_first)
  then have s: "split_on pipe c = spec_embedded_token c # split_on pipe (spec_embedded_digest c)"
    using at_first_pipe [OF a] by simp
  obtain rest where
    "split_on pipe (spec_embedded_digest c)
       = takeWhile (\<lambda>u. u \<noteq> pipe) (spec_embedded_digest c) # rest"
    using split_on_head by blast
  with s show ?thesis
    by (simp add: split_cookie_def split_method_def element_def)
qed

theorem split_cookie_first_two_pieces_witness:
  "pipe \<in> set (lit ''a|b|c'') \<and>
   split_cookie (Str (lit ''a|b|c''))
     = Inr (Str (spec_embedded_token (lit ''a|b|c'')),
            Str (takeWhile (\<lambda>u. u \<noteq> pipe) (spec_embedded_digest (lit ''a|b|c''))))"
proof -
  have h: "pipe \<in> set (lit ''a|b|c'')" by (simp add: lit_def pipe_def)
  show ?thesis using h split_cookie_first_two_pieces [OF h] by simp
qed

text \<open>
  Claim C9.  For every secret, verification of the cookie value made of a single pipe
  followed by the keyed digest of the secret and the empty token, with the empty string as
  the submitted value, returns true.
\<close>

theorem empty_token_accepted:
  "verifyCSRFToken secret (Str (lit ''|'' @ createHashWithSecret (Str secret) (Str [])))
     (Str []) = Inr True"
proof -
  have "pipe \<notin> set (createHashWithSecret (Str secret) (Str []))"
    using is_hex_digest by (rule is_hex_no_pipe)
  then have "split_on pipe (pipe # createHashWithSecret (Str secret) (Str []))
               = [[], createHashWithSecret (Str secret) (Str [])]"
    using split_on_first [of pipe "[]"] by (simp add: split_on_no_sep)
  then show ?thesis by (simp add: verify_parsed truthy_def element_def lit_pipe)
qed

theorem empty_token_accepted_witness:
  "verifyCSRFToken example_secret
     (Str (lit ''|'' @ createHashWithSecret (Str example_secret) (Str []))) (Str []) = Inr True"
  by (rule empty_token_accepted)

text \<open>
  Claim C10 (compose-then-parse round trip).  For every secret, splitting the issued cookie
  value on the pipe gives exactly two pieces, the issued token and the issued digest; both
  are hexadecimal strings, neither contains a pipe, and the cookie contains exactly one.
\<close>

theorem issued_cookie_parses_back:
  "createCSRFToken secret src = (p, src') \<Longrightarrow>
     split_on pipe (cookie p) = [csrfToken p, createHashWithSecret (Str secret) (Str (csrfToken p))]
     \<and> is_hex (csrfToken p)
     \<and> is_hex (createHashWithSecret (Str secret) (Str (csrfToken p)))
     \<and> pipe \<notin> set (csrfToken p)
     \<and> pipe \<notin> set (createHashWithSecret (Str secret) (Str (csrfToken p)))
     \<and> count_list (cookie p) pipe = 1"
proof -
  assume a: "createCSRFToken secret src = (p, src')"
  have t: "pipe \<notin> set (csrfToken p)"
    using issued_token_hex(1) [OF a] by (rule is_hex_no_pipe)
  have d: "pipe \<notin> set (createHashWithSecret (Str secret) (Str (csrfToken p)))"
    using is_hex_digest by (rule is_hex_no_pipe)
  have "count_list (cookie p) pipe = 1"
    using t d by (simp add: issued_pair(2) [OF a] count_list_0_iff)
  then show ?thesis using t d split_issued [OF a] issued_token_hex(1) [OF a] is_hex_digest
    by simp
qed

theorem issued_cookie_parses_back_witness:
  "split_on pipe (example_token @ lit ''|'' @ example_digest)
     = [example_token, createHashWithSecret (Str example_secret) (Str example_token)]
   \<and> is_hex example_token
   \<and> is_hex (createHashWithSecret (Str example_secret) (Str example_token))
   \<and> pipe \<notin> set example_token
   \<and> pipe \<notin> set (createHashWithSecret (Str example_secret) (Str example_token))
   \<and> count_list (example_token @ lit ''|'' @ example_digest) pipe = 1"
  using issued_cookie_parses_back [OF issue_example] unfolding csrf_pair.select_convs .

end
